theory Spec2Isabelle
  imports Complex_Main
begin

section \<open>Python helpers used by the handler\<close>

text \<open>
  \<^verbatim>\<open>str.split("/")\<close>: the pieces between slashes, empty pieces kept; the result is
  never the empty list.
\<close>

fun split_slash :: "string \<Rightarrow> string list" where
  "split_slash [] = [[]]"
| "split_slash (c # cs) =
     (if c = CHR ''/'' then [] # split_slash cs
      else (case split_slash cs of
              [] \<Rightarrow> [[c]]
            | p # ps \<Rightarrow> (c # p) # ps))"

text \<open>
  \<^verbatim>\<open>pathlib.Path(s)\<close> on POSIX: the root is \<^verbatim>\<open>/\<close> (or \<^verbatim>\<open>//\<close> for exactly two leading
  slashes), empty and \<^verbatim>\<open>.\<close> components are dropped, \<^verbatim>\<open>..\<close> is kept. \<^verbatim>\<open>parts\<close> is the root
  (when there is one) followed by the components; \<^verbatim>\<open>name\<close> is the last component, or the
  empty string when there is none.
\<close>

definition path_root :: "string \<Rightarrow> string" where
  "path_root s =
     (if take 1 s \<noteq> ''/'' then []
      else if take 2 s = ''//'' \<and> take 3 s \<noteq> ''///'' then ''//''
      else ''/'')"

definition path_components :: "string \<Rightarrow> string list" where
  "path_components s = filter (\<lambda>c. c \<noteq> [] \<and> c \<noteq> ''.'') (split_slash s)"

definition path_parts :: "string \<Rightarrow> string list" where
  "path_parts s = (if path_root s = [] then [] else [path_root s]) @ path_components s"

definition path_name :: "string \<Rightarrow> string" where
  "path_name s = (if path_components s = [] then [] else last (path_components s))"

datatype exn =
    FileNotFoundError
  | NotADirectoryError
  | IndexError
  | RuntimeError
  | DockerException

text \<open>\<^verbatim>\<open>parts[-2]\<close>: raises IndexError on fewer than two parts.\<close>

definition parts_minus2 :: "string list \<Rightarrow> exn + string" where
  "parts_minus2 ps =
     (if 2 \<le> length ps then Inr (ps ! (length ps - 2)) else Inl IndexError)"

text \<open>Truthiness of an \<^verbatim>\<open>Optional[str]\<close>: None and the empty string are false.\<close>

definition truthy :: "string option \<Rightarrow> bool" where
  "truthy s = (case s of None \<Rightarrow> False | Some v \<Rightarrow> v \<noteq> [])"

text \<open>How an f-string prints an \<^verbatim>\<open>Optional[str]\<close>.\<close>

definition fmt :: "string option \<Rightarrow> string" where
  "fmt s = (case s of None \<Rightarrow> ''None'' | Some v \<Rightarrow> v)"

section \<open>The file system as the handler sees it\<close>

datatype node = Missing | File | Dir "string list"

type_synonym filesystem = "string \<Rightarrow> node"

text \<open>\<^verbatim>\<open>os.listdir(path)\<close>.\<close>

definition listdir :: "filesystem \<Rightarrow> string \<Rightarrow> exn + string list" where
  "listdir fs p =
     (case fs p of
        Missing \<Rightarrow> Inl FileNotFoundError
      | File \<Rightarrow> Inl NotADirectoryError
      | Dir l \<Rightarrow> Inr l)"

section \<open>The handler object\<close>

record docker_client =
  compose_files :: "string list"

text \<open>
  The watchdog observer is a thread: \<open>started\<close> once \<^verbatim>\<open>start()\<close> succeeded,
  \<open>stop_requested\<close> once \<^verbatim>\<open>stop()\<close> was called. It delivers events while it is started
  and not stopped.
\<close>

record observer_state =
  started :: bool
  stop_requested :: bool

definition alive :: "observer_state \<Rightarrow> bool" where
  "alive ob = (started ob \<and> \<not> stop_requested ob)"

text \<open>
  The attributes of \<^verbatim>\<open>InstalledServiceHandler\<close>. \<open>timer\<close> is a reference into the store
  of timer threads (see below); \<open>compose_file\<close> is the attribute that
  \<^verbatim>\<open>_get_docker\<close> sets.
\<close>

record handler =
  service_path :: string
  service_name :: string
  wait_seconds :: rat
  timer :: "nat option"
  observer :: observer_state
  files :: "string list"
  docker :: "docker_client option"
  compose_file :: "string option"

definition ACCEPTED_FILES :: "string list" where
  "ACCEPTED_FILES = [''docker-compose.yaml'', ''docker-compose.yml'', ''.env'']"

definition ACCEPTED_EVENTS :: "string list" where
  "ACCEPTED_EVENTS = [''modified'', ''created'', ''deleted'']"

subsection \<open>Resolving the compose file and the docker client\<close>

definition get_compose_file_name :: "handler \<Rightarrow> string option" where
  "get_compose_file_name h =
     (if ''docker-compose.yaml'' \<in> set (files h) then Some ''docker-compose.yaml''
      else if ''docker-compose.yml'' \<in> set (files h) then Some ''docker-compose.yml''
      else None)"

text \<open>
  \<^verbatim>\<open>_get_docker\<close> assigns \<^verbatim>\<open>self.compose_file\<close> and returns the client (or None); the
  caller assigns the result to \<^verbatim>\<open>self.docker\<close>.
\<close>

definition get_docker :: "handler \<Rightarrow> docker_client option \<times> handler" where
  "get_docker h =
     (let h' = h\<lparr>compose_file := get_compose_file_name h\<rparr>
      in if truthy (compose_file h')
         then (Some \<lparr>compose_files = [service_path h' @ ''/'' @ fmt (compose_file h')]\<rparr>, h')
         else (None, h'))"

text \<open>
  \<^verbatim>\<open>__init__\<close>: the only place where the directory is listed. The listing raises when
  the directory cannot be listed, and then no handler is constructed.
\<close>

definition init :: "filesystem \<Rightarrow> string \<Rightarrow> rat \<Rightarrow> exn + handler" where
  "init fs sp ws =
     (case listdir fs sp of
        Inl e \<Rightarrow> Inl e
      | Inr l \<Rightarrow>
          (let h0 = \<lparr>service_path = sp,
                     service_name = last (split_slash sp),
                     wait_seconds = ws,
                     timer = None,
                     observer = \<lparr>started = False, stop_requested = False\<rparr>,
                     files = l,
                     docker = None,
                     compose_file = None\<rparr>;
               (d, h1) = get_docker h0
           in Inr (h1\<lparr>docker := d\<rparr>)))"

section \<open>The world outside the handler\<close>

text \<open>
  Everything the handler does to the outside is recorded in a trace: the calls to the
  orchestration tool, the log records, the firing of a timer thread and an exception
  that leaves a thread or a method.
\<close>

datatype level = LDebug | LInfo | LError

datatype call =
    ComposeUp docker_client
  | Ps docker_client string
  | ContainerStop string
  | ContainerRemove string
  | VolumePrune

datatype action =
    Call call
  | Log level string
  | TimerFired nat rat
  | Raised exn

text \<open>
  A \<^verbatim>\<open>threading.Timer\<close> is a thread that waits for its interval and then, unless it was
  cancelled meanwhile, calls its function once. \<^verbatim>\<open>cancel()\<close> has an effect only while
  the thread is still waiting. A thread that called its function is \<open>Running\<close> until the
  function has returned, and \<open>Fired\<close> from then on.
\<close>

datatype tstate = Waiting | Cancelled | Running | Fired

record timer_obj =
  deadline :: rat
  tstate :: tstate

record world =
  trace :: "action list"
  fs :: filesystem
  timers :: "timer_obj list"
  clock :: rat

text \<open>
  The orchestration tool is a parameter: whether a call raises, and which containers a
  listing returns, may depend on everything that happened before.
\<close>

record env =
  raises :: "action list \<Rightarrow> call \<Rightarrow> bool"
  ps_result :: "action list \<Rightarrow> docker_client \<Rightarrow> string \<Rightarrow> string list"

definition log_msg :: "level \<Rightarrow> string \<Rightarrow> world \<Rightarrow> world" where
  "log_msg lv s w = w\<lparr>trace := trace w @ [Log lv s]\<rparr>"

definition do_call :: "env \<Rightarrow> call \<Rightarrow> world \<Rightarrow> (exn + unit) \<times> world" where
  "do_call env c w =
     (if raises env (trace w) c
      then (Inl DockerException, w\<lparr>trace := trace w @ [Call c]\<rparr>)
      else (Inr (), w\<lparr>trace := trace w @ [Call c]\<rparr>))"

definition do_ps :: "env \<Rightarrow> docker_client \<Rightarrow> string \<Rightarrow> world \<Rightarrow> (exn + string list) \<times> world" where
  "do_ps env d label w =
     (if raises env (trace w) (Ps d label)
      then (Inl DockerException, w\<lparr>trace := trace w @ [Call (Ps d label)]\<rparr>)
      else (Inr (ps_result env (trace w) d label), w\<lparr>trace := trace w @ [Call (Ps d label)]\<rparr>))"

definition timer_cancel :: "nat \<Rightarrow> world \<Rightarrow> world" where
  "timer_cancel i w =
     (if i < length (timers w) \<and> tstate (timers w ! i) = Waiting
      then w\<lparr>timers := (timers w)[i := (timers w ! i)\<lparr>tstate := Cancelled\<rparr>]\<rparr>
      else w)"

text \<open>\<^verbatim>\<open>Timer(interval, f).start()\<close>: a negative interval waits no time at all.\<close>

definition timer_start :: "rat \<Rightarrow> world \<Rightarrow> nat \<times> world" where
  "timer_start interval w =
     (length (timers w),
      w\<lparr>timers := timers w @ [\<lparr>deadline = clock w + max 0 interval, tstate = Waiting\<rparr>]\<rparr>)"

section \<open>The methods of the handler\<close>

definition up :: "env \<Rightarrow> handler \<Rightarrow> world \<Rightarrow> (exn + unit) \<times> world" where
  "up env h w =
     (case docker h of
        None \<Rightarrow> (Inr (), w)
      | Some d \<Rightarrow>
          (case do_call env (ComposeUp d) w of
             (Inr _, w1) \<Rightarrow>
               (Inr (), log_msg LInfo (service_name h @ '' service compose started.'') w1)
           | (Inl e, w1) \<Rightarrow>
               (Inr (),
                log_msg LError
                  (''An error occurred, couldn't start service '' @ service_name h @ ''.'') w1)))"

text \<open>
  The loop of \<^verbatim>\<open>down\<close>: stop, then remove, each container in turn. Nothing catches an
  exception here, so the first call that raises ends the loop.
\<close>

fun stop_remove_all :: "env \<Rightarrow> string list \<Rightarrow> world \<Rightarrow> (exn + unit) \<times> world" where
  "stop_remove_all env [] w = (Inr (), w)"
| "stop_remove_all env (c # cs) w =
     (case do_call env (ContainerStop c) w of
        (Inl e, w1) \<Rightarrow> (Inl e, w1)
      | (Inr _, w1) \<Rightarrow>
          (case do_call env (ContainerRemove c) w1 of
             (Inl e, w2) \<Rightarrow> (Inl e, w2)
           | (Inr _, w2) \<Rightarrow> stop_remove_all env cs w2))"

definition config_label :: "handler \<Rightarrow> string" where
  "config_label h =
     ''com.docker.compose.project.config_files='' @ service_path h @ ''/'' @ fmt (compose_file h)"

definition down :: "env \<Rightarrow> handler \<Rightarrow> world \<Rightarrow> (exn + unit) \<times> world" where
  "down env h w =
     (case docker h of
        None \<Rightarrow> (Inr (), w)
      | Some d \<Rightarrow>
          (let w1 = log_msg LInfo (service_name h @ '' service compose stopped.'') w
           in case do_ps env d (config_label h) w1 of
                (Inl e, w2) \<Rightarrow> (Inl e, w2)
              | (Inr containers, w2) \<Rightarrow>
                  (case stop_remove_all env containers w2 of
                     (Inl e, w3) \<Rightarrow> (Inl e, w3)
                   | (Inr _, w3) \<Rightarrow> do_call env VolumePrune w3)))"

definition reload_service_compose ::
  "env \<Rightarrow> handler \<Rightarrow> world \<Rightarrow> (exn + unit) \<times> handler \<times> world" where
  "reload_service_compose env h w =
     (if \<not> (docker h \<noteq> None \<and> truthy (compose_file h)) then (Inr (), h, w)
      else
        (let w1 = log_msg LDebug (service_name h @ '' service modified.'') w
         in case down env h w1 of
              (Inl e, w2) \<Rightarrow> (Inl e, h, w2)
            | (Inr _, w2) \<Rightarrow>
                (let (d, h1) = get_docker h;
                     h2 = h1\<lparr>docker := d\<rparr>
                 in case up env h2 w2 of
                      (Inl e, w3) \<Rightarrow> (Inl e, h2, w3)
                    | (Inr _, w3) \<Rightarrow> (Inr (), h2\<lparr>timer := None\<rparr>, w3))))"

text \<open>
  The reload up to its last statement, that is without \<^verbatim>\<open>self.timer = None\<close>. The result
  says whether that statement is still to run: it is not when the guard returned.
\<close>

definition reload_body ::
  "env \<Rightarrow> handler \<Rightarrow> world \<Rightarrow> (exn + bool) \<times> handler \<times> world" where
  "reload_body env h w =
     (if \<not> (docker h \<noteq> None \<and> truthy (compose_file h)) then (Inr False, h, w)
      else
        (let w1 = log_msg LDebug (service_name h @ '' service modified.'') w
         in case down env h w1 of
              (Inl e, w2) \<Rightarrow> (Inl e, h, w2)
            | (Inr _, w2) \<Rightarrow>
                (let (d, h1) = get_docker h;
                     h2 = h1\<lparr>docker := d\<rparr>
                 in case up env h2 w2 of
                      (Inl e, w3) \<Rightarrow> (Inl e, h2, w3)
                    | (Inr _, w3) \<Rightarrow> (Inr True, h2, w3))))"

record fs_event =
  is_directory :: bool
  src_path :: string
  event_type :: string

definition qualifies :: "handler \<Rightarrow> fs_event \<Rightarrow> string \<Rightarrow> bool" where
  "qualifies h ev folder =
     (path_name (src_path ev) \<in> set ACCEPTED_FILES
      \<and> folder = service_name h
      \<and> event_type ev \<in> set ACCEPTED_EVENTS)"

definition on_any_event ::
  "fs_event \<Rightarrow> handler \<Rightarrow> world \<Rightarrow> (exn + unit) \<times> handler \<times> world" where
  "on_any_event ev h w =
     (if is_directory ev then (Inr (), h, w)
      else
        (case parts_minus2 (path_parts (src_path ev)) of
           Inl e \<Rightarrow> (Inl e, h, w)
         | Inr folder \<Rightarrow>
             (if qualifies h ev folder
              then
                (let w1 = (case timer h of None \<Rightarrow> w | Some i \<Rightarrow> timer_cancel i w);
                     (i, w2) = timer_start (wait_seconds h) w1
                 in (Inr (), h\<lparr>timer := Some i\<rparr>, w2))
              else (Inr (), h, w))))"

text \<open>
  \<^verbatim>\<open>start\<close>. Starting the watch raises FileNotFoundError when the directory is
  missing; the handler catches that one exception, logs and calls \<^verbatim>\<open>down\<close>, whose
  exception, if any, leaves \<^verbatim>\<open>start\<close>. An observer thread can be started only once:
  a second start raises RuntimeError, which the handler does not catch.
\<close>

definition start :: "env \<Rightarrow> handler \<Rightarrow> world \<Rightarrow> (exn + unit) \<times> handler \<times> world" where
  "start env h w =
     (let ob = observer h;
          missing = (fs w (service_path h) = Missing)
      in if missing
         then
           (let w1 = log_msg LError
                       (''Couldn't start a watcher for the '' @ service_name h
                          @ '' service, the folder no longer exists.'') w
            in case down env h w1 of (r, w2) \<Rightarrow> (r, h, w2))
         else if started ob then (Inl RuntimeError, h, w)
         else (Inr (), h\<lparr>observer := ob\<lparr>started := True\<rparr>\<rparr>,
               log_msg LDebug (service_name h @ '' Installed Service Handler started.'') w))"

definition stop :: "handler \<Rightarrow> world \<Rightarrow> (exn + unit) \<times> handler \<times> world" where
  "stop h w =
     (Inr (),
      h\<lparr>observer := (observer h)\<lparr>stop_requested := True\<rparr>\<rparr>,
      log_msg LDebug ''Installed Service Handler stopped.'' w)"

section \<open>Time: timer threads and the handler's lifetime\<close>

text \<open>
  A timer thread wakes at its deadline. If it is still waiting (not cancelled), it calls
  \<^verbatim>\<open>reload_service_compose\<close> on its own thread, while the observer thread goes on
  delivering events. The docker calls of the reload take time. The thread does them
  when it wakes and is \<open>Running\<close> from then on; the last statement of the reload,
  \<^verbatim>\<open>self.timer = None\<close>, runs at a later instant, which the schedule chooses
  (\<open>OpReloadEnd\<close> below). Events delivered in between meet the handler in the middle of
  the reload; \<^verbatim>\<open>on_any_event\<close> reads and writes no attribute that the reload touches
  before its last statement. A reload that returns at its guard or raises ends the
  thread at once.
\<close>

definition wake :: "env \<Rightarrow> nat \<Rightarrow> handler \<times> world \<Rightarrow> handler \<times> world" where
  "wake env i s =
     (case s of (h, w) \<Rightarrow>
        if i < length (timers w) \<and> tstate (timers w ! i) = Waiting
        then
          (let t = timers w ! i;
               w1 = w\<lparr>trace := trace w @ [TimerFired i (deadline t)],
                       timers := (timers w)[i := t\<lparr>tstate := Running\<rparr>]\<rparr>
           in case reload_body env h w1 of
                (Inr True, h2, w2) \<Rightarrow> (h2, w2)
              | (Inr False, h2, w2) \<Rightarrow>
                  (h2, w2\<lparr>timers := (timers w2)[i := t\<lparr>tstate := Fired\<rparr>]\<rparr>)
              | (Inl e, h2, w2) \<Rightarrow>
                  (h2, w2\<lparr>trace := trace w2 @ [Raised e],
                          timers := (timers w2)[i := t\<lparr>tstate := Fired\<rparr>]\<rparr>))
        else s)"

text \<open>The last statement of a reload that is under way, and the end of its thread.\<close>

definition finish_reload :: "nat \<Rightarrow> handler \<times> world \<Rightarrow> handler \<times> world" where
  "finish_reload i s =
     (case s of (h, w) \<Rightarrow>
        if i < length (timers w) \<and> tstate (timers w ! i) = Running
        then (h\<lparr>timer := None\<rparr>,
              w\<lparr>timers := (timers w)[i := (timers w ! i)\<lparr>tstate := Fired\<rparr>]\<rparr>)
        else s)"

text \<open>The timers whose deadline is not after \<open>t\<close>, earliest deadline first.\<close>

definition due :: "rat \<Rightarrow> world \<Rightarrow> nat list" where
  "due t w =
     sort_key (\<lambda>i. deadline (timers w ! i))
       (filter (\<lambda>i. deadline (timers w ! i) \<le> t) [0 ..< length (timers w)])"

text \<open>
  Let time pass until \<open>t\<close>: every timer due by then wakes, in the order of the deadlines
  (a timer due exactly at \<open>t\<close> wakes before what happens at \<open>t\<close>).
\<close>

definition advance :: "env \<Rightarrow> rat \<Rightarrow> handler \<times> world \<Rightarrow> handler \<times> world" where
  "advance env t s =
     (case foldl (\<lambda>s' i. wake env i s') s (due t (snd s)) of
        (h, w) \<Rightarrow> (h, w\<lparr>clock := max (clock w) t\<rparr>))"

text \<open>
  What can happen to a handler during its lifetime: a caller invokes one of its public
  methods, the observer delivers an event (only while it is alive; an exception of the
  callback ends the observer thread), the directory changes, or a reload that is under
  way on a timer thread reaches its last statement.
\<close>

datatype op =
    OpStart
  | OpStop
  | OpUp
  | OpDown
  | OpEvent fs_event
  | OpFsWrite string node
  | OpReloadEnd nat

definition settle :: "(exn + unit) \<times> handler \<times> world \<Rightarrow> handler \<times> world" where
  "settle r =
     (case r of
        (Inr _, h, w) \<Rightarrow> (h, w)
      | (Inl e, h, w) \<Rightarrow> (h, w\<lparr>trace := trace w @ [Raised e]\<rparr>))"

definition exec :: "env \<Rightarrow> rat \<times> op \<Rightarrow> handler \<times> world \<Rightarrow> handler \<times> world" where
  "exec env tp s =
     (case advance env (fst tp) s of (h, w) \<Rightarrow>
        (case snd tp of
           OpStart \<Rightarrow> settle (start env h w)
         | OpStop \<Rightarrow> settle (stop h w)
         | OpUp \<Rightarrow> (case up env h w of (r, w1) \<Rightarrow> settle (r, h, w1))
         | OpDown \<Rightarrow> (case down env h w of (r, w1) \<Rightarrow> settle (r, h, w1))
         | OpEvent ev \<Rightarrow>
             (if alive (observer h)
              then (case on_any_event ev h w of
                      (Inr u, h1, w1) \<Rightarrow> (h1, w1)
                    | (Inl e, h1, w1) \<Rightarrow>
                        (h1\<lparr>observer := (observer h1)\<lparr>stop_requested := True\<rparr>\<rparr>,
                         w1\<lparr>trace := trace w1 @ [Raised e]\<rparr>))
              else (h, w))
         | OpFsWrite p n \<Rightarrow> (h, w\<lparr>fs := (fs w)(p := n)\<rparr>)
         | OpReloadEnd i \<Rightarrow> finish_reload i (h, w)))"

definition run :: "env \<Rightarrow> (rat \<times> op) list \<Rightarrow> handler \<times> world \<Rightarrow> handler \<times> world" where
  "run env ops s = foldl (\<lambda>s' o'. exec env o' s') s ops"

text \<open>The times at which a timer thread called the reload, in order.\<close>

fun fire_times :: "action list \<Rightarrow> rat list" where
  "fire_times [] = []"
| "fire_times (TimerFired i t # as) = t # fire_times as"
| "fire_times (a # as) = fire_times as"

section \<open>Notions used to state the properties\<close>

text \<open>
  \<open>extends w w'\<close>: the world \<open>w'\<close> is \<open>w\<close> with more actions at the end of the trace, none
  of them the firing of a timer; the directory, the timers and the clock are the same.
\<close>

definition extends :: "world \<Rightarrow> world \<Rightarrow> bool" where
  "extends w w' = (\<exists>sfx. w' = w\<lparr>trace := trace w @ sfx\<rparr> \<and> fire_times sfx = [])"

definition same_service :: "handler \<Rightarrow> handler \<Rightarrow> bool" where
  "same_service h h' =
     (service_path h' = service_path h \<and> service_name h' = service_name h
      \<and> wait_seconds h' = wait_seconds h \<and> files h' = files h)"


text \<open>
  A burst: each event comes after the one before it, and less than \<open>wt\<close> later.
\<close>

fun burst :: "rat \<Rightarrow> (rat \<times> fs_event) list \<Rightarrow> bool" where
  "burst wt [] = True"
| "burst wt [x] = True"
| "burst wt (x # y # evs) = (fst x \<le> fst y \<and> fst y - fst x < wt \<and> burst wt (y # evs))"

text \<open>No timer thread is waiting.\<close>

definition idle :: "world \<Rightarrow> bool" where
  "idle w = (list_all (\<lambda>x. tstate x \<noteq> Waiting) (timers w))"


text \<open>
  How a handler can differ from an earlier state of itself: the service is the same,
  and the client and the compose file are the old ones or the ones that
  \<^verbatim>\<open>_get_docker\<close> computes from the old state (only when there was a client).
\<close>

definition evolves :: "handler \<Rightarrow> handler \<Rightarrow> bool" where
  "evolves h h' =
     (same_service h h'
      \<and> (docker h' = docker h \<and> compose_file h' = compose_file h
         \<or> docker h \<noteq> None \<and> docker h' = fst (get_docker h)
           \<and> compose_file h' = get_compose_file_name h))"

text \<open>An event that passes the filter of \<^verbatim>\<open>on_any_event\<close>.\<close>

definition passes_filter :: "handler \<Rightarrow> fs_event \<Rightarrow> bool" where
  "passes_filter h ev =
     (\<not> is_directory ev
      \<and> (case parts_minus2 (path_parts (src_path ev)) of
            Inl e \<Rightarrow> False
          | Inr folder \<Rightarrow> qualifies h ev folder))"

text \<open>Whether \<^verbatim>\<open>on_any_event\<close> started a new timer.\<close>

definition arms :: "fs_event \<Rightarrow> handler \<Rightarrow> world \<Rightarrow> bool" where
  "arms ev h w = (length (timers (snd (snd (on_any_event ev h w)))) = Suc (length (timers w)))"

text \<open>
  The specification's wording of the filter's second condition: the file is an
  immediate child of the service directory.
\<close>

definition first_level :: "handler \<Rightarrow> fs_event \<Rightarrow> bool" where
  "first_level h ev =
     (path_parts (src_path ev) = path_parts (service_path h) @ [path_name (src_path ev)])"

text \<open>
  The specification's wording of binding resolution: scan the directory as it is now
  for the first accepted definition file name; absent when there is none.
\<close>

definition spec_resolve_binding :: "filesystem \<Rightarrow> string \<Rightarrow> string option" where
  "spec_resolve_binding f sp =
     (case f sp of
        Dir l \<Rightarrow>
          (if ''docker-compose.yaml'' \<in> set l then Some ''docker-compose.yaml''
           else if ''docker-compose.yml'' \<in> set l then Some ''docker-compose.yml''
           else None)
      | _ \<Rightarrow> None)"

subsection \<open>Concrete services\<close>

definition ex_fs :: "string list \<Rightarrow> filesystem" where
  "ex_fs l = (\<lambda>p. Missing)(''/srv/foo'' := Dir l)"

definition ex_handler :: "string list \<Rightarrow> string option \<Rightarrow> handler" where
  "ex_handler l cf =
     \<lparr>service_path = ''/srv/foo'',
      service_name = ''foo'',
      wait_seconds = 2,
      timer = None,
      observer = \<lparr>started = False, stop_requested = False\<rparr>,
      files = l,
      docker = (case cf of None \<Rightarrow> None
                | Some n \<Rightarrow> Some \<lparr>compose_files = [''/srv/foo/'' @ n]\<rparr>),
      compose_file = cf\<rparr>"

definition ex_bound :: handler where
  "ex_bound = ex_handler [''docker-compose.yml'', ''.env''] (Some ''docker-compose.yml'')"

definition ex_unbound :: handler where
  "ex_unbound = ex_handler [''README.md'', ''.env''] None"

definition ex_both :: handler where
  "ex_both =
     ex_handler [''docker-compose.yml'', ''.env'', ''docker-compose.yaml'']
       (Some ''docker-compose.yaml'')"

definition ex_world :: "string list \<Rightarrow> world" where
  "ex_world l = \<lparr>trace = [], fs = ex_fs l, timers = [], clock = 0\<rparr>"

definition ex_env :: "call list \<Rightarrow> env" where
  "ex_env failing =
     \<lparr>raises = (\<lambda>tr c. c \<in> set failing), ps_result = (\<lambda>tr d l. [''c1'', ''c2''])\<rparr>"

definition ex_event :: "string \<Rightarrow> fs_event" where
  "ex_event p = \<lparr>is_directory = False, src_path = p, event_type = ''modified''\<rparr>"

text \<open>
  Two modifications of the compose file, one and a half seconds apart, and the schedule
  in which they meet a reload that began at time 2 and reaches its last statement at
  time 4.
\<close>

definition ex_burst :: "(rat \<times> fs_event) list" where
  "ex_burst =
     [(3, ex_event ''/srv/foo/docker-compose.yaml''),
      (9 / 2, ex_event ''/srv/foo/docker-compose.yaml'')]"

definition ex_before_burst :: "handler \<times> world" where
  "ex_before_burst =
     advance (ex_env []) 3
       (run (ex_env [])
          [(0, OpStart), (0, OpEvent (ex_event ''/srv/foo/docker-compose.yaml''))]
          (ex_bound, ex_world [''docker-compose.yml'', ''.env'']))"

definition ex_burst_schedule :: "(rat \<times> op) list" where
  "ex_burst_schedule =
     [(3, OpEvent (ex_event ''/srv/foo/docker-compose.yaml'')),
      (4, OpReloadEnd 0),
      (9 / 2, OpEvent (ex_event ''/srv/foo/docker-compose.yaml''))]"

text \<open>A lifetime: start, a new definition file appears, its event arrives.\<close>

definition ex_ops :: "(rat \<times> op) list" where
  "ex_ops =
     [(0, OpStart),
      (1, OpFsWrite ''/srv/foo'' (Dir [''docker-compose.yaml'', ''.env''])),
      (2, OpEvent (ex_event ''/srv/foo/docker-compose.yaml''))]"


section \<open>Constructed handlers\<close>

lemma init_ex_bound:
  "init (ex_fs [''docker-compose.yml'', ''.env'']) ''/srv/foo'' 2 = Inr ex_bound"
  by (simp add: init_def listdir_def ex_fs_def ex_bound_def ex_handler_def get_docker_def
      get_compose_file_name_def truthy_def fmt_def Let_def)

lemma init_ex_unbound:
  "init (ex_fs [''README.md'', ''.env'']) ''/srv/foo'' 2 = Inr ex_unbound"
  by (simp add: init_def listdir_def ex_fs_def ex_unbound_def ex_handler_def get_docker_def
      get_compose_file_name_def truthy_def fmt_def Let_def)

lemma init_ex_both:
  "init (ex_fs [''docker-compose.yml'', ''.env'', ''docker-compose.yaml'']) ''/srv/foo'' 2
     = Inr ex_both"
  by (simp add: init_def listdir_def ex_fs_def ex_both_def ex_handler_def get_docker_def
      get_compose_file_name_def truthy_def fmt_def Let_def)

lemma init_Inr:
  assumes "init f sp ws = Inr h"
  shows "\<exists>l. f sp = Dir l \<and> files h = l"
    and "service_path h = sp" and "wait_seconds h = ws" and "timer h = None"
    and "observer h = \<lparr>started = False, stop_requested = False\<rparr>"
    and "compose_file h = get_compose_file_name h"
    and "docker h = fst (get_docker h)"
  using assms
  by (auto simp: init_def listdir_def get_docker_def get_compose_file_name_def Let_def
      split: node.splits if_splits)

section \<open>What the methods leave unchanged\<close>








lemma extends_raised: "extends w (w\<lparr>trace := trace w @ [Raised e]\<rparr>)"
  unfolding extends_def by (rule exI [of _ "[Raised e]"]) simp






lemma get_docker_same:
  "get_docker h = (d, h1) \<Longrightarrow> h1 = h\<lparr>compose_file := get_compose_file_name h\<rparr>"
  unfolding get_docker_def Let_def by (auto split: if_splits)


lemma reload_body_last:
  "reload_service_compose env h w =
     (case reload_body env h w of
        (Inl e, h', w') \<Rightarrow> (Inl e, h', w')
      | (Inr True, h', w') \<Rightarrow> (Inr (), h'\<lparr>timer := None\<rparr>, w')
      | (Inr False, h', w') \<Rightarrow> (Inr (), h', w'))"
  by (simp add: reload_service_compose_def reload_body_def Let_def
      split: prod.splits sum.splits)


section \<open>Timer threads\<close>














section \<open>The handler over its lifetime\<close>

lemma same_service_get:
  "same_service h h' \<Longrightarrow>
     fst (get_docker h') = fst (get_docker h) \<and> get_compose_file_name h' = get_compose_file_name h"
  by (simp add: same_service_def get_docker_def get_compose_file_name_def Let_def)

lemma evolves_refl: "evolves h h"
  by (simp add: evolves_def same_service_def)

lemma evolves_trans:
  assumes "evolves h h1" and "evolves h1 h2"
  shows "evolves h h2"
proof -
  have s1: "same_service h h1" and s2: "same_service h1 h2"
    using assms by (simp_all add: evolves_def)
  have s: "same_service h h2" using s1 s2 by (simp add: same_service_def)
  note g = same_service_get [OF s1]
  show ?thesis using assms s g unfolding evolves_def by auto
qed

lemma evolves_timer_observer:
  "evolves h (h\<lparr>timer := x\<rparr>)" "evolves h (h\<lparr>observer := y\<rparr>)"
  by (simp_all add: evolves_def same_service_def)

lemma reload_evolves:
  assumes "reload_service_compose env h w = (r, h', w')"
  shows "evolves h h'"
proof (cases "docker h \<noteq> None \<and> truthy (compose_file h)")
  case False
  then show ?thesis using assms by (auto simp: reload_service_compose_def evolves_refl)
next
  case True
  let ?w1 = "log_msg LDebug (service_name h @ '' service modified.'') w"
  obtain r1 w2 where d: "down env h ?w1 = (r1, w2)" by (cases "down env h ?w1")
  show ?thesis
  proof (cases r1)
    case (Inl e)
    then show ?thesis using assms True d
      by (auto simp: reload_service_compose_def evolves_refl)
  next
    case (Inr u)
    obtain dc h1 where g: "get_docker h = (dc, h1)" by (cases "get_docker h")
    have h1: "h1 = h\<lparr>compose_file := get_compose_file_name h\<rparr>"
      using g by (rule get_docker_same)
    obtain r3 w3 where u: "up env (h1\<lparr>docker := dc\<rparr>) w2 = (r3, w3)"
      by (cases "up env (h1\<lparr>docker := dc\<rparr>) w2")
    show ?thesis using assms True d Inr g u h1
      by (auto simp: reload_service_compose_def evolves_def same_service_def Let_def
          split: sum.splits)
  qed
qed

lemma reload_body_evolves:
  assumes "reload_body env h w = (r, h', w')"
  shows "evolves h h'"
proof -
  obtain r0 h0 w0 where rl: "reload_service_compose env h w = (r0, h0, w0)"
    by (cases "reload_service_compose env h w")
  have "docker h0 = docker h' \<and> compose_file h0 = compose_file h' \<and> same_service h' h0"
    using rl assms by (auto simp: reload_body_last same_service_def split: sum.splits bool.splits)
  then show ?thesis using reload_evolves [OF rl] by (auto simp: evolves_def same_service_def)
qed

lemma wake_evolves: "wake env i (h, w) = (h', w') \<Longrightarrow> evolves h h'"
  by (auto simp: wake_def Let_def evolves_refl
      split: if_splits prod.splits sum.splits bool.splits dest: reload_body_evolves)

lemma finish_reload_evolves: "finish_reload i (h, w) = (h', w') \<Longrightarrow> evolves h h'"
  by (auto simp: finish_reload_def evolves_refl evolves_timer_observer split: if_splits)

lemma foldl_wake_evolves:
  "foldl (\<lambda>s' i. wake env i s') (h, w) ids = (h', w') \<Longrightarrow> evolves h h'"
proof (induction ids arbitrary: h w)
  case Nil
  then show ?case by (simp add: evolves_refl)
next
  case (Cons i ids)
  obtain h1 w1 where wk: "wake env i (h, w) = (h1, w1)" by (cases "wake env i (h, w)")
  have "evolves h h1" using wk by (rule wake_evolves)
  moreover have "evolves h1 h'" using Cons.prems wk by (auto intro: Cons.IH)
  ultimately show ?case by (rule evolves_trans)
qed

lemma advance_evolves: "advance env t (h, w) = (h', w') \<Longrightarrow> evolves h h'"
  by (auto simp: advance_def split: prod.splits dest: foldl_wake_evolves)

lemma on_any_event_evolves: "on_any_event ev h w = (r, h', w') \<Longrightarrow> evolves h h'"
  by (auto simp: on_any_event_def Let_def evolves_refl evolves_timer_observer
      split: if_splits sum.splits prod.splits)

lemma start_evolves: "start env h w = (r, h', w') \<Longrightarrow> evolves h h'"
  by (auto simp: start_def Let_def evolves_refl evolves_timer_observer
      split: if_splits prod.splits)

lemma stop_evolves: "stop h w = (r, h', w') \<Longrightarrow> evolves h h'"
  by (auto simp: stop_def evolves_timer_observer)

lemma settle_evolves: "evolves h h1 \<Longrightarrow> settle (r, h1, w1) = (h', w') \<Longrightarrow> evolves h h'"
  by (auto simp: settle_def split: sum.splits)

lemma exec_evolves:
  assumes "exec env tp (h, w) = (h', w')"
  shows "evolves h h'"
proof -
  obtain h1 w1 where adv: "advance env (fst tp) (h, w) = (h1, w1)"
    by (cases "advance env (fst tp) (h, w)")
  have e1: "evolves h h1" using adv by (rule advance_evolves)
  have "evolves h1 h'"
  proof (cases "snd tp")
    case OpStart
    obtain r h2 w2 where s: "start env h1 w1 = (r, h2, w2)" by (cases "start env h1 w1")
    then show ?thesis using assms adv OpStart start_evolves [OF s]
      by (auto simp: exec_def intro: settle_evolves)
  next
    case OpStop
    obtain r h2 w2 where s: "stop h1 w1 = (r, h2, w2)" by (cases "stop h1 w1")
    then show ?thesis using assms adv OpStop stop_evolves [OF s]
      by (auto simp: exec_def intro: settle_evolves)
  next
    case OpUp
    then show ?thesis using assms adv
      by (auto simp: exec_def split: prod.splits intro: settle_evolves [OF evolves_refl])
  next
    case OpDown
    then show ?thesis using assms adv
      by (auto simp: exec_def split: prod.splits intro: settle_evolves [OF evolves_refl])
  next
    case (OpEvent ev)
    obtain r h2 w2 where s: "on_any_event ev h1 w1 = (r, h2, w2)"
      by (cases "on_any_event ev h1 w1")
    have e2: "evolves h1 h2" using s by (rule on_any_event_evolves)
    have "evolves h2 (h2\<lparr>observer := (observer h2)\<lparr>stop_requested := True\<rparr>\<rparr>)"
      by (rule evolves_timer_observer)
    then have "evolves h1 (h2\<lparr>observer := (observer h2)\<lparr>stop_requested := True\<rparr>\<rparr>)"
      using e2 by (blast intro: evolves_trans)
    then show ?thesis using assms adv OpEvent s e2
      by (auto simp: exec_def evolves_refl split: if_splits sum.splits)
  next
    case (OpFsWrite p n)
    then show ?thesis using assms adv by (auto simp: exec_def evolves_refl)
  next
    case (OpReloadEnd i)
    then show ?thesis using assms adv by (auto simp: exec_def dest: finish_reload_evolves)
  qed
  then show ?thesis using e1 by (blast intro: evolves_trans)
qed

lemma run_evolves: "run env ops (h, w) = (h', w') \<Longrightarrow> evolves h h'"
  unfolding run_def
proof (induction ops arbitrary: h w)
  case Nil
  then show ?case by (simp add: evolves_refl)
next
  case (Cons x ops)
  obtain h1 w1 where e: "exec env x (h, w) = (h1, w1)" by (cases "exec env x (h, w)")
  have "evolves h h1" using e by (rule exec_evolves)
  moreover have "evolves h1 h'" using Cons.prems e by (auto intro: Cons.IH)
  ultimately show ?case by (rule evolves_trans)
qed

lemma lifetime_evolves: "evolves h (fst (advance env T (run env ops (h, w))))"
proof -
  obtain h1 w1 where r: "run env ops (h, w) = (h1, w1)" by (cases "run env ops (h, w)")
  obtain h2 w2 where a: "advance env T (h1, w1) = (h2, w2)" by (cases "advance env T (h1, w1)")
  have "evolves h h2" using run_evolves [OF r] advance_evolves [OF a] by (rule evolves_trans)
  then show ?thesis using r a by simp
qed

section \<open>First-match resolution\<close>

text \<open>
  C6. Whenever the file listing contains \<^verbatim>\<open>docker-compose.yaml\<close> (also when it contains
  \<^verbatim>\<open>docker-compose.yml\<close> as well), resolution returns \<^verbatim>\<open>docker-compose.yaml\<close> and the
  client is bound to that path under the service directory; the result depends on the
  listing only, so repeated resolutions agree; \<^verbatim>\<open>.env\<close> is never the resolved file.
\<close>

theorem first_match_resolution:
  "(''docker-compose.yaml'' \<in> set (files h) \<and> ''docker-compose.yml'' \<in> set (files h)
      \<longrightarrow> get_compose_file_name h = Some ''docker-compose.yaml''
        \<and> fst (get_docker h) =
            Some \<lparr>compose_files = [service_path h @ ''/docker-compose.yaml'']\<rparr>
        \<and> compose_file (snd (get_docker h)) = Some ''docker-compose.yaml''
        \<and> get_docker (snd (get_docker h)) = get_docker h)
   \<and> get_compose_file_name h \<noteq> Some ''.env''
   \<and> compose_file (snd (get_docker h)) \<noteq> Some ''.env''
   \<and> fst (get_docker h) \<noteq> Some \<lparr>compose_files = [service_path h @ ''/.env'']\<rparr>"
  by (simp add: get_compose_file_name_def get_docker_def truthy_def fmt_def Let_def)

theorem first_match_resolution_witness:
  "''docker-compose.yaml'' \<in> set (files ex_both) \<and> ''docker-compose.yml'' \<in> set (files ex_both)
   \<and> get_compose_file_name ex_both = Some ''docker-compose.yaml''
   \<and> fst (get_docker ex_both) = Some \<lparr>compose_files = [''/srv/foo/docker-compose.yaml'']\<rparr>"
  using first_match_resolution [of ex_both]
  by (simp add: ex_both_def ex_handler_def)

section \<open>Failures of the orchestration tool\<close>

text \<open>
  C7. \<^verbatim>\<open>up()\<close> always returns normally, whatever the binding and whatever the
  orchestration tool does; when the start operation raises, the call is followed by
  the error log record and nothing else.
\<close>

theorem up_never_propagates:
  "fst (up env h w) = Inr ()
   \<and> (\<forall>d. docker h = Some d \<and> raises env (trace w) (ComposeUp d) \<longrightarrow>
        up env h w =
          (Inr (),
           w\<lparr>trace := trace w @
                [Call (ComposeUp d),
                 Log LError (''An error occurred, couldn't start service ''
                               @ service_name h @ ''.'')]\<rparr>))"
  by (simp add: up_def do_call_def log_msg_def split: option.splits)

theorem up_never_propagates_witness:
  "docker ex_bound = Some \<lparr>compose_files = [''/srv/foo/docker-compose.yml'']\<rparr>
   \<and> raises (ex_env [ComposeUp \<lparr>compose_files = [''/srv/foo/docker-compose.yml'']\<rparr>])
        (trace (ex_world []))
        (ComposeUp \<lparr>compose_files = [''/srv/foo/docker-compose.yml'']\<rparr>)
   \<and> fst (up (ex_env [ComposeUp \<lparr>compose_files = [''/srv/foo/docker-compose.yml'']\<rparr>])
            ex_bound (ex_world [])) = Inr ()
   \<and> trace (snd (up (ex_env [ComposeUp \<lparr>compose_files = [''/srv/foo/docker-compose.yml'']\<rparr>])
            ex_bound (ex_world []))) =
       [Call (ComposeUp \<lparr>compose_files = [''/srv/foo/docker-compose.yml'']\<rparr>),
        Log LError ''An error occurred, couldn't start service foo.'']"
proof -
  let ?d = "\<lparr>compose_files = [''/srv/foo/docker-compose.yml'']\<rparr>"
  let ?env = "ex_env [ComposeUp ?d]"
  note inst = up_never_propagates [of ?env ex_bound "ex_world []"]
  have a: "docker ex_bound = Some ?d" by (simp add: ex_bound_def ex_handler_def)
  have b: "raises ?env (trace (ex_world [])) (ComposeUp ?d)" by (simp add: ex_env_def)
  have c: "fst (up ?env ex_bound (ex_world [])) = Inr ()" using inst by (rule conjunct1)
  have "up ?env ex_bound (ex_world []) =
          (Inr (),
           (ex_world [])\<lparr>trace := trace (ex_world []) @
                [Call (ComposeUp ?d),
                 Log LError (''An error occurred, couldn't start service ''
                               @ service_name ex_bound @ ''.'')]\<rparr>)"
    using inst a b by blast
  then have d: "trace (snd (up ?env ex_bound (ex_world []))) =
       [Call (ComposeUp ?d), Log LError ''An error occurred, couldn't start service foo.'']"
    by (simp add: ex_world_def ex_bound_def ex_handler_def)
  show ?thesis using a b c d by blast
qed

text \<open>
  C8. A handler constructed over a directory without \<^verbatim>\<open>docker-compose.yaml\<close> and
  \<^verbatim>\<open>docker-compose.yml\<close> has no client, and its \<^verbatim>\<open>up()\<close> and \<^verbatim>\<open>down()\<close> return normally
  and leave the world as it is: no call is issued and nothing is logged.
\<close>

theorem no_binding_safety:
  assumes "f sp = Dir l"
    and "''docker-compose.yaml'' \<notin> set l" and "''docker-compose.yml'' \<notin> set l"
  shows "\<exists>h. init f sp ws = Inr h \<and> docker h = None
           \<and> up env h w = (Inr (), w) \<and> down env h w = (Inr (), w)"
  using assms
  by (simp add: init_def listdir_def get_docker_def get_compose_file_name_def truthy_def
      Let_def up_def down_def)

theorem no_binding_safety_witness:
  "ex_fs [''README.md'', ''.env''] ''/srv/foo'' = Dir [''README.md'', ''.env'']
   \<and> ''docker-compose.yaml'' \<notin> set [''README.md'', ''.env'']
   \<and> ''docker-compose.yml'' \<notin> set [''README.md'', ''.env'']
   \<and> (\<exists>h. init (ex_fs [''README.md'', ''.env'']) ''/srv/foo'' 2 = Inr h \<and> docker h = None
         \<and> up (ex_env []) h (ex_world []) = (Inr (), ex_world [])
         \<and> down (ex_env []) h (ex_world []) = (Inr (), ex_world []))"
proof -
  have a: "ex_fs [''README.md'', ''.env''] ''/srv/foo'' = Dir [''README.md'', ''.env'']"
    by (simp add: ex_fs_def)
  have b: "''docker-compose.yaml'' \<notin> set [''README.md'', ''.env'']" by simp
  have c: "''docker-compose.yml'' \<notin> set [''README.md'', ''.env'']" by simp
  show ?thesis using a b c no_binding_safety [of "ex_fs [''README.md'', ''.env'']" "''/srv/foo''" "[''README.md'', ''.env'']" 2
        "ex_env []" "ex_world []", OF a b c]
    by blast
qed

text \<open>
  C4. In \<^verbatim>\<open>down()\<close> nothing catches a failure of the orchestration tool. With two
  containers listed and the stop of the first one raising, \<^verbatim>\<open>down()\<close> ends with that
  exception: the second container is neither stopped nor removed and the volumes are
  not pruned.
\<close>

theorem down_aborts_on_first_failure:
  "fst (down (ex_env [ContainerStop ''c1'']) ex_bound (ex_world [])) = Inl DockerException
   \<and> trace (snd (down (ex_env [ContainerStop ''c1'']) ex_bound (ex_world []))) =
       [Log LInfo ''foo service compose stopped.'',
        Call (Ps \<lparr>compose_files = [''/srv/foo/docker-compose.yml'']\<rparr>
               ''com.docker.compose.project.config_files=/srv/foo/docker-compose.yml''),
        Call (ContainerStop ''c1'')]"
  by (simp add: down_def do_ps_def do_call_def log_msg_def config_label_def fmt_def
      ex_env_def ex_bound_def ex_handler_def ex_world_def Let_def)

section \<open>The event filter\<close>

lemma path_parts_nested:
  "path_parts ''/srv/foo/foo/docker-compose.yaml'' = [''/'', ''srv'', ''foo'', ''foo'', ''docker-compose.yaml'']"
  by (simp add: path_parts_def path_root_def path_components_def)

lemma path_name_nested:
  "path_name ''/srv/foo/foo/docker-compose.yaml'' = ''docker-compose.yaml''"
  by (simp add: path_name_def path_components_def)

lemma path_parts_srv_foo: "path_parts ''/srv/foo'' = [''/'', ''srv'', ''foo'']"
  by (simp add: path_parts_def path_root_def path_components_def)

lemma path_parts_first_level:
  "path_parts ''/srv/foo/docker-compose.yaml'' = [''/'', ''srv'', ''foo'', ''docker-compose.yaml'']"
  by (simp add: path_parts_def path_root_def path_components_def)

lemma path_name_first_level:
  "path_name ''/srv/foo/docker-compose.yaml'' = ''docker-compose.yaml''"
  by (simp add: path_name_def path_components_def)

lemma passes_filter_ex:
  "service_name h = ''foo'' \<Longrightarrow> passes_filter h (ex_event ''/srv/foo/docker-compose.yaml'')"
  by (simp add: passes_filter_def qualifies_def parts_minus2_def path_parts_first_level
      path_name_first_level ACCEPTED_FILES_def ACCEPTED_EVENTS_def ex_event_def)

text \<open>What the filter does: an event arms a timer exactly when it passes the three tests.\<close>

lemma arms_iff_passes_filter: "arms ev h w = passes_filter h ev"
  by (simp add: arms_def passes_filter_def on_any_event_def timer_start_def timer_cancel_def
      Let_def split: sum.splits option.splits)

text \<open>
  C5. The filter compares the name of the event's parent directory with the service
  name. A definition file in a sub-directory that has the name of the service, here
  \<^verbatim>\<open>/srv/foo/foo/docker-compose.yaml\<close> for the service \<^verbatim>\<open>/srv/foo\<close>, is not an immediate
  child of the service directory, and its event arms the timer all the same.
\<close>

theorem nested_same_name_arms_timer:
  "\<not> first_level ex_bound (ex_event ''/srv/foo/foo/docker-compose.yaml'')
   \<and> arms (ex_event ''/srv/foo/foo/docker-compose.yaml'') ex_bound (ex_world [])
   \<and> timer (fst (snd (on_any_event (ex_event ''/srv/foo/foo/docker-compose.yaml'')
                        ex_bound (ex_world [])))) = Some 0
   \<and> timers (snd (snd (on_any_event (ex_event ''/srv/foo/foo/docker-compose.yaml'')
                        ex_bound (ex_world [])))) = [\<lparr>deadline = 2, tstate = Waiting\<rparr>]"
  by (simp add: first_level_def arms_def on_any_event_def qualifies_def parts_minus2_def
      path_parts_nested path_name_nested path_parts_srv_foo timer_start_def
      ACCEPTED_FILES_def ACCEPTED_EVENTS_def
      ex_event_def ex_bound_def ex_handler_def ex_world_def Let_def)

section \<open>Construction and start\<close>

text \<open>
  C10. Constructing a handler for a missing directory fails with FileNotFoundError. A
  constructed handler comes from a directory that was listed at construction. Started
  in any world where the directory is not missing, it takes the normal branch of
  \<^verbatim>\<open>start()\<close>; the missing-directory branch (error log, then \<^verbatim>\<open>down()\<close>) is taken
  exactly in a world where the directory is missing, which is then not the directory
  of the construction.
\<close>

theorem construction_requires_directory:
  "(f sp = Missing \<longrightarrow> init f sp ws = Inl FileNotFoundError)
   \<and> (\<forall>h. init f sp ws = Inr h \<longrightarrow>
        (\<exists>l. f sp = Dir l \<and> files h = l)
        \<and> service_path h = sp
        \<and> (\<forall>env w. fs w sp \<noteq> Missing \<longrightarrow>
              start env h w =
                (Inr (),
                 h\<lparr>observer := \<lparr>started = True, stop_requested = False\<rparr>\<rparr>,
                 log_msg LDebug (service_name h @ '' Installed Service Handler started.'') w))
        \<and> (\<forall>env w. fs w sp = Missing \<longrightarrow>
              f sp \<noteq> fs w sp
              \<and> start env h w =
                  (fst (down env h
                          (log_msg LError
                             (''Couldn't start a watcher for the '' @ service_name h
                                @ '' service, the folder no longer exists.'') w)),
                   h,
                   snd (down env h
                          (log_msg LError
                             (''Couldn't start a watcher for the '' @ service_name h
                                @ '' service, the folder no longer exists.'') w)))))"
proof (intro conjI allI impI)
  assume "f sp = Missing"
  then show "init f sp ws = Inl FileNotFoundError" by (simp add: init_def listdir_def)
next
  fix h assume i: "init f sp ws = Inr h"
  show "\<exists>l. f sp = Dir l \<and> files h = l" using init_Inr(1) [OF i] .
  show "service_path h = sp" using init_Inr(2) [OF i] .
next
  fix h env and w :: world assume i: "init f sp ws = Inr h" and w: "fs w sp \<noteq> Missing"
  have "fs w (service_path h) \<noteq> Missing" using init_Inr(2) [OF i] w by simp
  then show "start env h w =
     (Inr (), h\<lparr>observer := \<lparr>started = True, stop_requested = False\<rparr>\<rparr>,
      log_msg LDebug (service_name h @ '' Installed Service Handler started.'') w)"
    using init_Inr(5) [OF i] by (simp add: start_def Let_def)
next
  fix h env and w :: world assume i: "init f sp ws = Inr h" and w: "fs w sp = Missing"
  show "f sp \<noteq> fs w sp" using init_Inr(1) [OF i] w by auto
  show "start env h w =
     (fst (down env h (log_msg LError (''Couldn't start a watcher for the '' @ service_name h
            @ '' service, the folder no longer exists.'') w)), h,
      snd (down env h (log_msg LError (''Couldn't start a watcher for the '' @ service_name h
            @ '' service, the folder no longer exists.'') w)))"
    using init_Inr(2,5) [OF i] w by (simp add: start_def Let_def split: prod.splits)
qed

theorem construction_requires_directory_witness:
  "ex_fs [''docker-compose.yml'', ''.env''] ''/srv/gone'' = Missing
   \<and> init (ex_fs [''docker-compose.yml'', ''.env'']) ''/srv/gone'' 2 = Inl FileNotFoundError
   \<and> init (ex_fs [''docker-compose.yml'', ''.env'']) ''/srv/foo'' 2 = Inr ex_bound
   \<and> fs (ex_world [''README.md'']) ''/srv/foo'' \<noteq> Missing
   \<and> start (ex_env []) ex_bound (ex_world [''README.md'']) =
       (Inr (),
        ex_bound\<lparr>observer := \<lparr>started = True, stop_requested = False\<rparr>\<rparr>,
        log_msg LDebug (service_name ex_bound @ '' Installed Service Handler started.'')
          (ex_world [''README.md'']))"
proof -
  let ?f = "ex_fs [''docker-compose.yml'', ''.env'']"
  have a: "?f ''/srv/gone'' = Missing" by (simp add: ex_fs_def)
  have b: "init ?f ''/srv/gone'' 2 = Inl FileNotFoundError"
    using construction_requires_directory [of ?f "''/srv/gone''" 2] a by blast
  have c: "fs (ex_world [''README.md'']) ''/srv/foo'' \<noteq> Missing"
    by (simp add: ex_world_def ex_fs_def)
  have d: "start (ex_env []) ex_bound (ex_world [''README.md'']) =
       (Inr (),
        ex_bound\<lparr>observer := \<lparr>started = True, stop_requested = False\<rparr>\<rparr>,
        log_msg LDebug (service_name ex_bound @ '' Installed Service Handler started.'')
          (ex_world [''README.md'']))"
    using construction_requires_directory [of ?f "''/srv/foo''" 2] init_ex_bound c by blast
  show ?thesis using a b c d init_ex_bound by blast
qed

section \<open>Debounce\<close>

lemma ex_before_burst_state:
  "timer (fst ex_before_burst) = Some 0
   \<and> wait_seconds (fst ex_before_burst) = 2
   \<and> service_name (fst ex_before_burst) = ''foo''
   \<and> timers (snd ex_before_burst) = [\<lparr>deadline = 2, tstate = Running\<rparr>]
   \<and> clock (snd ex_before_burst) = 3
   \<and> fire_times (trace (snd ex_before_burst)) = [2]"
  by code_simp

text \<open>
  C2. A reload takes time, and its last statement clears \<^verbatim>\<open>self.timer\<close> whatever it
  refers to by then. With \<^verbatim>\<open>wait_seconds = 2\<close>, a reload begins at time 2 and no timer
  is pending at time 3. Two qualifying events follow, at 3 and at 4.5, less than
  \<^verbatim>\<open>wait_seconds\<close> apart; the reload reaches its last statement at time 4, between
  them, and drops the reference to the timer that the first event armed. The second
  event cannot cancel that timer: the burst is followed by two reloads, at 5 and at
  6.5, and not by the single one at 6.5.
\<close>

theorem reload_end_drops_pending_timer:
  "idle (snd ex_before_burst)
   \<and> fire_times (trace (snd ex_before_burst)) = [2]
   \<and> clock (snd ex_before_burst) = fst (hd ex_burst)
   \<and> burst (wait_seconds (fst ex_before_burst)) ex_burst
   \<and> list_all (\<lambda>x. passes_filter (fst ex_before_burst) (snd x)) ex_burst
   \<and> ex_burst_schedule =
       [(3, OpEvent (snd (ex_burst ! 0))), (4, OpReloadEnd 0), (9 / 2, OpEvent (snd (ex_burst ! 1)))]
   \<and> fire_times (trace (snd (advance (ex_env []) 10
        (run (ex_env []) ex_burst_schedule ex_before_burst)))) = [2, 5, 13 / 2]"
  by code_simp

section \<open>The binding over the lifetime of a handler\<close>

text \<open>
  C9. A handler without a client stays without one: its reload returns at once and
  changes neither the handler nor the world, and after any sequence of method calls,
  delivered events, changes of the directory and timer firings the client is still
  absent.
\<close>

theorem absent_binding_permanent:
  assumes "docker h = None"
  shows "reload_service_compose env h w = (Inr (), h, w)
         \<and> docker (fst (run env ops (h, w))) = None
         \<and> docker (fst (advance env T (run env ops (h, w)))) = None"
proof -
  have "evolves h (fst (advance env T (run env ops (h, w))))" by (rule lifetime_evolves)
  then have a: "docker (fst (advance env T (run env ops (h, w)))) = None"
    using assms by (auto simp: evolves_def)
  obtain h1 w1 where r: "run env ops (h, w) = (h1, w1)" by (cases "run env ops (h, w)")
  have b: "docker (fst (run env ops (h, w))) = None"
    using run_evolves [OF r] r assms by (auto simp: evolves_def)
  show ?thesis using a b assms by (simp add: reload_service_compose_def)
qed

theorem absent_binding_permanent_witness:
  "docker ex_unbound = None
   \<and> reload_service_compose (ex_env []) ex_unbound (ex_world [''README.md'', ''.env''])
       = (Inr (), ex_unbound, ex_world [''README.md'', ''.env''])
   \<and> docker (fst (advance (ex_env []) 10
        (run (ex_env []) ex_ops (ex_unbound, ex_world [''README.md'', ''.env''])))) = None"
proof -
  have a: "docker ex_unbound = None" by (simp add: ex_unbound_def ex_handler_def)
  show ?thesis
    using a absent_binding_permanent [OF a, of "ex_env []" "ex_world [''README.md'', ''.env'']"
        ex_ops 10]
    by blast
qed

text \<open>
  The directory is listed once, at construction. The compose file of a constructed
  handler is the one resolved from that listing, and it stays so after a reload and
  after any sequence of method calls, events, changes of the directory and timer
  firings: the second resolution that every reload performs cannot give another file.
\<close>

lemma binding_fixed_at_construction:
  assumes "init f sp ws = Inr h"
  shows "compose_file h = spec_resolve_binding f sp
         \<and> compose_file (fst (snd (reload_service_compose env h w))) = spec_resolve_binding f sp
         \<and> files (fst (snd (reload_service_compose env h w))) = files h
         \<and> compose_file (fst (advance env T (run env ops (h, w)))) = spec_resolve_binding f sp
         \<and> docker (fst (advance env T (run env ops (h, w)))) = docker h
         \<and> files (fst (advance env T (run env ops (h, w)))) = files h"
proof -
  obtain l where l: "f sp = Dir l" "files h = l" using init_Inr(1) [OF assms] by blast
  have c: "compose_file h = get_compose_file_name h" using init_Inr(6) [OF assms] .
  have d: "docker h = fst (get_docker h)" using init_Inr(7) [OF assms] .
  have s: "get_compose_file_name h = spec_resolve_binding f sp"
    using l by (simp add: get_compose_file_name_def spec_resolve_binding_def)
  have ev: "compose_file h' = spec_resolve_binding f sp \<and> docker h' = docker h
            \<and> files h' = files h" if "evolves h h'" for h'
    using that c d s by (auto simp: evolves_def same_service_def)
  obtain r h1 w1 where rl: "reload_service_compose env h w = (r, h1, w1)"
    by (cases "reload_service_compose env h w")
  show ?thesis
    using ev [OF reload_evolves [OF rl]] ev [OF lifetime_evolves [of h env T ops w]] rl c s
    by simp
qed

text \<open>
  C1. The reload resolves the binding again, from the listing cached at construction
  and not from the directory. A handler constructed while the directory held
  \<^verbatim>\<open>docker-compose.yml\<close> reloads after the file was renamed to \<^verbatim>\<open>docker-compose.yaml\<close>:
  the reload ends normally with the old file name, while a scan of the directory as
  it is at that moment gives the new one.
\<close>

theorem reload_resolves_from_stale_listing:
  "init (ex_fs [''docker-compose.yml'', ''.env'']) ''/srv/foo'' 2 = Inr ex_bound
   \<and> fst (reload_service_compose (ex_env []) ex_bound
            (ex_world [''docker-compose.yaml'', ''.env''])) = Inr ()
   \<and> compose_file (fst (snd (reload_service_compose (ex_env []) ex_bound
            (ex_world [''docker-compose.yaml'', ''.env''])))) = Some ''docker-compose.yml''
   \<and> spec_resolve_binding (fs (ex_world [''docker-compose.yaml'', ''.env'']))
        (service_path ex_bound) = Some ''docker-compose.yaml''
   \<and> compose_file (fst (snd (reload_service_compose (ex_env []) ex_bound
            (ex_world [''docker-compose.yaml'', ''.env''])))) \<noteq>
       spec_resolve_binding (fs (ex_world [''docker-compose.yaml'', ''.env'']))
         (service_path ex_bound)"
proof -
  have a: "fst (reload_service_compose (ex_env []) ex_bound
            (ex_world [''docker-compose.yaml'', ''.env''])) = Inr ()"
    by (simp add: reload_service_compose_def down_def up_def do_ps_def do_call_def log_msg_def
        config_label_def fmt_def truthy_def get_docker_def get_compose_file_name_def
        ex_env_def ex_bound_def ex_handler_def ex_world_def Let_def)
  have b: "compose_file (fst (snd (reload_service_compose (ex_env []) ex_bound
            (ex_world [''docker-compose.yaml'', ''.env'']))))  = Some ''docker-compose.yml''"
    by (simp add: reload_service_compose_def down_def up_def do_ps_def do_call_def log_msg_def
        config_label_def fmt_def truthy_def get_docker_def get_compose_file_name_def
        ex_env_def ex_bound_def ex_handler_def ex_world_def Let_def)
  have c: "spec_resolve_binding (fs (ex_world [''docker-compose.yaml'', ''.env'']))
        (service_path ex_bound) = Some ''docker-compose.yaml''"
    by (simp add: spec_resolve_binding_def ex_world_def ex_fs_def ex_bound_def ex_handler_def)
  show ?thesis using init_ex_bound a b c by simp
qed

section \<open>Stopping the handler\<close>





end
